theory Spec2Isabelle
  imports Main "HOL-Library.Sublist"
begin

section \<open>QAlgorithm: a dataflow graph of algorithm nodes\<close>

text \<open>
  The development embeds \<^verbatim>\<open>Sources/QAlgorithm.cpp\<close>, \<^verbatim>\<open>Sources/QAlgorithm.h\<close> and
  \<^verbatim>\<open>Sources/qa_macros.h\<close>. An algorithm node is an object that other nodes reach through
  shared pointers; here a pointer is a natural number and the objects live in a store
  \<open>heap\<close>, so that two handles to the same node alias as they do in the source. The order
  of pointers (the key order of a \<^verbatim>\<open>QMap<QAShrAlgorithm, bool>\<close>) is the order of the numbers.
\<close>

subsection \<open>Qt containers\<close>

text \<open>
  \<^verbatim>\<open>QMap<QAShrAlgorithm, T>\<close>: an association list kept sorted by key, one entry per key.
  \<open>qmap_set\<close> is \<^verbatim>\<open>m[k] = v\<close> (which inserts the key when it is absent), \<open>qmap_remove\<close> is
  \<^verbatim>\<open>m.remove(k)\<close>, \<open>qmap_keys_of\<close> is \<^verbatim>\<open>m.keys(v)\<close>, \<open>qmap_value\<close> is \<^verbatim>\<open>m.value(k)\<close>, which
  is the default-constructed value \<open>dflt\<close> for an absent key.
\<close>

type_synonym 'v qmap = "(nat \<times> 'v) list"

type_synonym QACompletionMap = "bool qmap"

fun qmap_set :: "nat \<Rightarrow> 'v \<Rightarrow> 'v qmap \<Rightarrow> 'v qmap" where
  "qmap_set k v [] = [(k, v)]"
| "qmap_set k v ((k', v') # m) =
     (if k < k' then (k, v) # (k', v') # m
      else if k = k' then (k, v) # m
      else (k', v') # qmap_set k v m)"

definition qmap_remove :: "nat \<Rightarrow> 'v qmap \<Rightarrow> 'v qmap" where
  "qmap_remove k m = filter (\<lambda>e. fst e \<noteq> k) m"

definition qmap_keys :: "'v qmap \<Rightarrow> nat list" where
  "qmap_keys m = map fst m"

definition qmap_values :: "'v qmap \<Rightarrow> 'v list" where
  "qmap_values m = map snd m"

definition qmap_keys_of :: "'v \<Rightarrow> 'v qmap \<Rightarrow> nat list" where
  "qmap_keys_of v m = map fst (filter (\<lambda>e. snd e = v) m)"

definition qmap_contains :: "nat \<Rightarrow> 'v qmap \<Rightarrow> bool" where
  "qmap_contains k m = (k \<in> set (qmap_keys m))"

definition qmap_count :: "'v qmap \<Rightarrow> nat" where
  "qmap_count m = length m"

fun qmap_value :: "'v \<Rightarrow> 'v qmap \<Rightarrow> nat \<Rightarrow> 'v" where
  "qmap_value dflt [] k = dflt"
| "qmap_value dflt ((k', v) # m) k = (if k' = k then v else qmap_value dflt m k)"

text \<open>
  \<^verbatim>\<open>QMultiMap<QString, QString>\<close> (the type of \<^verbatim>\<open>PropagationRules\<close>). The source only asks
  \<^verbatim>\<open>contains(key)\<close> and \<^verbatim>\<open>values(key)\<close>; the latter lists the values of a key from the most
  recently inserted to the least recently inserted. The model keeps the entries newest
  first, so an insertion is a cons; \<open>makePropagationRules\<close> inserts the pairs of the
  initializer list from left to right.
\<close>

type_synonym QAPropagationRules = "(string \<times> string) list"

definition insertMulti :: "string \<Rightarrow> string \<Rightarrow> QAPropagationRules \<Rightarrow> QAPropagationRules" where
  "insertMulti k v m = (k, v) # m"

definition makePropagationRules :: "(string \<times> string) list \<Rightarrow> QAPropagationRules" where
  "makePropagationRules pairs = foldl (\<lambda>m p. insertMulti (fst p) (snd p) m) [] pairs"

definition rules_contains :: "QAPropagationRules \<Rightarrow> string \<Rightarrow> bool" where
  "rules_contains m k = (k \<in> set (map fst m))"

definition rules_values :: "QAPropagationRules \<Rightarrow> string \<Rightarrow> string list" where
  "rules_values m k = map snd (filter (\<lambda>e. fst e = k) m)"

subsection \<open>Property values\<close>

text \<open>
  A \<^verbatim>\<open>QVariant\<close> is a type-tagged cell; \<open>Invalid\<close> is the default-constructed, empty
  \<^verbatim>\<open>QVariant()\<close>. Numeric payloads are integers: nothing below depends on the arithmetic
  of a \<^verbatim>\<open>run\<close> procedure.
\<close>

datatype QVariant =
    Invalid
  | QBool bool
  | QInt int
  | QString string
  | QRules QAPropagationRules
  | QVector "int list"
  | QCompletion QACompletionMap

datatype QType = TBool | TInt | TString | TRules | TVector | TCompletion | TVariant

fun userType :: "QVariant \<Rightarrow> QType option" where
  "userType Invalid = None"
| "userType (QBool _) = Some TBool"
| "userType (QInt _) = Some TInt"
| "userType (QString _) = Some TString"
| "userType (QRules _) = Some TRules"
| "userType (QVector _) = Some TVector"
| "userType (QCompletion _) = Some TCompletion"

definition isValid :: "QVariant \<Rightarrow> bool" where
  "isValid v = (v \<noteq> Invalid)"

text \<open>
  A property declared by \<^verbatim>\<open>QA_INPUT\<close>, \<^verbatim>\<open>QA_OUTPUT\<close> or \<^verbatim>\<open>QA_PARAMETER\<close> in a subclass: its
  full name (with the prefix \<^verbatim>\<open>algin_\<close>, \<^verbatim>\<open>algout_\<close> or \<^verbatim>\<open>par_\<close>), its declared type and the
  cell it holds. The containers that \<^verbatim>\<open>QA_INPUT_LIST\<close> and \<^verbatim>\<open>QA_INPUT_VEC\<close> fill beside the
  cell are left out: the code of \<^verbatim>\<open>QAlgorithm\<close> reaches a property through its cell only.
\<close>

record QProperty =
  pname :: string
  ptype :: QType
  pvalue :: QVariant

definition QA_IN :: string where "QA_IN = ''algin_''"
definition QA_OUT :: string where "QA_OUT = ''algout_''"
definition QA_PAR :: string where "QA_PAR = ''par_''"

definition startsWith :: "string \<Rightarrow> string \<Rightarrow> bool" where
  "startsWith s p = (take (length p) s = p)"

definition mid :: "string \<Rightarrow> nat \<Rightarrow> string" where
  "mid s n = drop n s"

text \<open>\<^verbatim>\<open>QString::contains(str)\<close>: \<open>str\<close> occurs in \<open>s\<close> as a contiguous substring.\<close>

definition contains :: "string \<Rightarrow> string \<Rightarrow> bool" where
  "contains s str = sublist str s"

text \<open>
  \<^verbatim>\<open>QList::first()\<close> asserts that the list is not empty; the failed assertion is an error
  of the model.
\<close>

datatype error = OutOfFuel | EmptyListAccess

definition qlist_first :: "'a list \<Rightarrow> error + 'a" where
  "qlist_first xs = (case xs of [] \<Rightarrow> Inl EmptyListAccess | x # _ \<Rightarrow> Inr x)"

definition qlist_last :: "'a list \<Rightarrow> error + 'a" where
  "qlist_last xs = (if xs = [] then Inl EmptyListAccess else Inr (last xs))"

subsection \<open>Nodes and the system state\<close>

record QAlgorithm =
  objectName :: string
  par_KeepInput :: bool
  par_PropagationRules :: QAPropagationRules
  par_ParallelExecution :: bool
  finished :: bool
  started :: bool
  ancestors :: QACompletionMap
  descendants :: QACompletionMap
  slots :: "QProperty list"

text \<open>
  What an observer of the program sees: the three signals of a node, each call of a
  \<^verbatim>\<open>run\<close> procedure, and the two warnings of \<^verbatim>\<open>getInput\<close>.
\<close>

datatype event =
    JustStarted nat
  | JustFinished nat
  | Raise nat string
  | Run nat
  | SetFailed nat string
  | ReadFailed nat string

text \<open>
  What waits in the event queue of the thread that owns the nodes: a call of \<^verbatim>\<open>abort\<close>
  posted by a queued \<^verbatim>\<open>raise\<close> connection, or the report of the future watcher that the
  \<^verbatim>\<open>run\<close> of a node has returned on its worker thread.
\<close>

datatype posted_event = AbortCall nat string | WatcherFinished nat

text \<open>
  The state of the program: the store of nodes, the \<^verbatim>\<open>raise\<close>-to-\<^verbatim>\<open>abort\<close> connections made
  by \<^verbatim>\<open>setConnection\<close> (sender, receiver), the event queue, the nodes handed to the thread
  pool whose \<^verbatim>\<open>run\<close> has not been executed yet, and the events observed so far.
\<close>

record system =
  heap :: "nat \<Rightarrow> QAlgorithm"
  conns :: "(nat \<times> nat) list"
  posted :: "posted_event list"
  pool :: "nat list"
  trace :: "event list"

text \<open>A node as the constructor and the member initialisers leave it.\<close>

definition new_QAlgorithm :: "string \<Rightarrow> QProperty list \<Rightarrow> QAlgorithm" where
  "new_QAlgorithm nick props =
     \<lparr> objectName = nick, par_KeepInput = False, par_PropagationRules = [],
       par_ParallelExecution = True, finished = False, started = False,
       ancestors = [], descendants = [], slots = props \<rparr>"

definition update_node :: "nat \<Rightarrow> (QAlgorithm \<Rightarrow> QAlgorithm) \<Rightarrow> system \<Rightarrow> system" where
  "update_node n f st = st\<lparr>heap := (heap st)(n := f (heap st n))\<rparr>"

definition emit :: "event \<Rightarrow> system \<Rightarrow> system" where
  "emit e st = st\<lparr>trace := trace st @ [e]\<rparr>"

subsection \<open>The property table of a node\<close>

text \<open>
  \<^verbatim>\<open>metaObject()->property(k).name()\<close> for \<open>k = 0, 1, ...\<close>: the property of \<^verbatim>\<open>QObject\<close>, the
  properties that the class \<^verbatim>\<open>QAlgorithm\<close> declares, in the order of the header, and then the
  properties of the subclass.
\<close>

definition propertyNames :: "QAlgorithm \<Rightarrow> string list" where
  "propertyNames n =
     [''objectName'', ''par_KeepInput'', ''par_PropagationRules'', ''par_ParallelExecution'',
      ''finished'', ''started'', ''ancestors'', ''descendants''] @ map pname (slots n)"

fun read_slot :: "QProperty list \<Rightarrow> string \<Rightarrow> QVariant" where
  "read_slot [] name = Invalid"
| "read_slot (p # ps) name = (if pname p = name then pvalue p else read_slot ps name)"

text \<open>\<^verbatim>\<open>QObject::property(name)\<close>; a name that is not a property reads as the invalid variant.\<close>

definition property :: "QAlgorithm \<Rightarrow> string \<Rightarrow> QVariant" where
  "property n name =
     (if name = ''objectName'' then QString (objectName n)
      else if name = ''par_KeepInput'' then QBool (par_KeepInput n)
      else if name = ''par_PropagationRules'' then QRules (par_PropagationRules n)
      else if name = ''par_ParallelExecution'' then QBool (par_ParallelExecution n)
      else if name = ''finished'' then QBool (finished n)
      else if name = ''started'' then QBool (started n)
      else if name = ''ancestors'' then QCompletion (ancestors n)
      else if name = ''descendants'' then QCompletion (descendants n)
      else read_slot (slots n) name)"

text \<open>
  Writing a cell: the invalid variant empties it, a valid variant is stored when the
  declared type is \<^verbatim>\<open>QVariant\<close> or is the type of the value, and the write is refused
  otherwise. Qt's conversions between value types are not modelled.
\<close>

definition accepts :: "QType \<Rightarrow> QVariant \<Rightarrow> bool" where
  "accepts t v = (v = Invalid \<or> t = TVariant \<or> userType v = Some t)"

fun write_slot :: "QProperty list \<Rightarrow> string \<Rightarrow> QVariant \<Rightarrow> QProperty list option" where
  "write_slot [] name v = None"
| "write_slot (p # ps) name v =
     (if pname p = name
      then (if accepts (ptype p) v then Some (p\<lparr>pvalue := v\<rparr> # ps) else None)
      else map_option (\<lambda>ps'. p # ps') (write_slot ps name v))"

text \<open>
  \<^verbatim>\<open>QObject::setProperty(name, value)\<close> on a declared property; \<open>None\<close> is the result
  \<^verbatim>\<open>false\<close>, which leaves the node as it was. The three parameters of \<^verbatim>\<open>QAlgorithm\<close> have
  typed setters; \<^verbatim>\<open>objectName\<close> is a string; the four remaining properties of \<^verbatim>\<open>QAlgorithm\<close>
  are read-only.
\<close>

definition setProperty :: "QAlgorithm \<Rightarrow> string \<Rightarrow> QVariant \<Rightarrow> QAlgorithm option" where
  "setProperty n name v =
     (if name = ''objectName''
      then (case v of QString s \<Rightarrow> Some (n\<lparr>objectName := s\<rparr>) | _ \<Rightarrow> None)
      else if name = ''par_KeepInput''
      then (case v of QBool b \<Rightarrow> Some (n\<lparr>par_KeepInput := b\<rparr>) | _ \<Rightarrow> None)
      else if name = ''par_PropagationRules''
      then (case v of QRules r \<Rightarrow> Some (n\<lparr>par_PropagationRules := r\<rparr>) | _ \<Rightarrow> None)
      else if name = ''par_ParallelExecution''
      then (case v of QBool b \<Rightarrow> Some (n\<lparr>par_ParallelExecution := b\<rparr>) | _ \<Rightarrow> None)
      else if name \<in> set [''finished'', ''started'', ''ancestors'', ''descendants'']
      then None
      else map_option (\<lambda>ps. n\<lparr>slots := ps\<rparr>) (write_slot (slots n) name v))"

subsection \<open>Transfer of a parent's outputs and parameters: getInput\<close>

text \<open>
  Lines 197 to 208: the base name of a parent property, for an output or a parameter;
  any other property is skipped.
\<close>

definition parentPropBaseName :: "string \<Rightarrow> string option" where
  "parentPropBaseName parentPropName =
     (if startsWith parentPropName QA_OUT then Some (mid parentPropName (length QA_OUT))
      else if startsWith parentPropName QA_PAR then Some (mid parentPropName (length QA_PAR))
      else None)"

text \<open>
  Lines 210 to 228: the base name of the child property, from the child's
  \<^verbatim>\<open>PropagationRules\<close> and the parent's object name.
\<close>

definition childPropBaseName :: "QAPropagationRules \<Rightarrow> string \<Rightarrow> string \<Rightarrow> error + string" where
  "childPropBaseName rules parentObjectName base =
     (if \<not> rules_contains rules base then Inr base
      else (let values = rules_values rules base
            in if length values > 1
               then qlist_first (filter (\<lambda>v. contains v parentObjectName) values)
               else qlist_first values))"

text \<open>
  Lines 235 to 257: the loop over the child's properties. The result \<open>False\<close> is the
  \<^verbatim>\<open>return false\<close> that leaves \<^verbatim>\<open>getInput\<close> at once.
\<close>

fun assignMatching ::
  "system \<Rightarrow> nat \<Rightarrow> nat \<Rightarrow> string \<Rightarrow> string \<Rightarrow> string list \<Rightarrow> bool \<times> system" where
  "assignMatching st child parent parentPropName cbase [] = (True, st)"
| "assignMatching st child parent parentPropName cbase (childPropName # rest) =
     (if childPropName = QA_IN @ cbase \<or> childPropName = QA_PAR @ cbase
      then (let parentProp = property (heap st parent) parentPropName
            in if isValid parentProp
               then (case setProperty (heap st child) childPropName parentProp of
                       None \<Rightarrow> (False, emit (SetFailed child childPropName) st)
                     | Some c \<Rightarrow>
                         assignMatching (update_node child (\<lambda>_. c) st)
                           child parent parentPropName cbase rest)
               else (False, emit (ReadFailed parent parentPropName) st))
      else assignMatching st child parent parentPropName cbase rest)"

text \<open>Lines 192 to 259: the loop over the parent's properties.\<close>

fun getInput_loop :: "system \<Rightarrow> nat \<Rightarrow> nat \<Rightarrow> string list \<Rightarrow> error + bool \<times> system" where
  "getInput_loop st child parent [] = Inr (True, st)"
| "getInput_loop st child parent (parentPropName # rest) =
     (case parentPropBaseName parentPropName of
        None \<Rightarrow> getInput_loop st child parent rest
      | Some base \<Rightarrow>
          (case childPropBaseName (par_PropagationRules (heap st child))
                  (objectName (heap st parent)) base of
             Inl e \<Rightarrow> Inl e
           | Inr cbase \<Rightarrow>
               if startsWith parentPropName QA_PAR \<and>
                  \<not> rules_contains (par_PropagationRules (heap st child)) base
               then getInput_loop st child parent rest
               else (case assignMatching st child parent parentPropName cbase
                            (propertyNames (heap st child)) of
                       (False, st') \<Rightarrow> Inr (False, st')
                     | (True, st') \<Rightarrow> getInput_loop st' child parent rest)))"

definition getInput :: "system \<Rightarrow> nat \<Rightarrow> nat \<Rightarrow> error + bool \<times> system" where
  "getInput st child parent = getInput_loop st child parent (propertyNames (heap st parent))"

subsection \<open>Connections\<close>

definition setConnection :: "nat \<Rightarrow> nat \<Rightarrow> system \<Rightarrow> system" where
  "setConnection ancestor descendant st =
     (let st1 = update_node ancestor
                  (\<lambda>a. a\<lparr>descendants :=
                          qmap_set descendant (finished (heap st descendant)) (descendants a)\<rparr>) st;
          st2 = update_node descendant
                  (\<lambda>d. d\<lparr>ancestors :=
                          qmap_set ancestor (finished (heap st1 ancestor)) (ancestors d)\<rparr>) st1
      in st2\<lparr>conns := conns st2 @ [(ancestor, descendant), (descendant, ancestor)]\<rparr>)"

definition closeConnection :: "nat \<Rightarrow> nat \<Rightarrow> system \<Rightarrow> system" where
  "closeConnection ancestor descendant st =
     (let st1 = update_node ancestor
                  (\<lambda>a. a\<lparr>descendants := qmap_remove descendant (descendants a)\<rparr>) st;
          st2 = update_node descendant
                  (\<lambda>d. d\<lparr>ancestors := qmap_remove ancestor (ancestors d)\<rparr>) st1
      in st2\<lparr>conns := filter (\<lambda>c. c \<noteq> (ancestor, descendant) \<and> c \<noteq> (descendant, ancestor))
                          (conns st2)\<rparr>)"

definition checkConnection :: "nat \<Rightarrow> nat \<Rightarrow> system \<Rightarrow> bool" where
  "checkConnection ancestor descendant st =
     (qmap_contains descendant (descendants (heap st ancestor)) \<and>
      qmap_contains ancestor (ancestors (heap st descendant)))"

definition isRemovableConnection :: "nat \<Rightarrow> nat \<Rightarrow> system \<Rightarrow> bool" where
  "isRemovableConnection p1 p2 st =
     (if checkConnection p2 p1 st
      then qmap_count (descendants (heap st p2)) = 1 \<and> qmap_count (ancestors (heap st p1)) = 1
      else if checkConnection p1 p2 st
      then qmap_count (descendants (heap st p1)) = 1 \<and> qmap_count (ancestors (heap st p2)) = 1
      else False)"

text \<open>A sequence of calls of the two operations.\<close>

datatype graph_call = Connect nat nat | Disconnect nat nat

fun apply_call :: "system \<Rightarrow> graph_call \<Rightarrow> system" where
  "apply_call st (Connect a d) = setConnection a d st"
| "apply_call st (Disconnect a d) = closeConnection a d st"

definition graph_calls :: "graph_call list \<Rightarrow> system \<Rightarrow> system" where
  "graph_calls cs st = foldl apply_call st cs"

text \<open>A program state in which no node has been connected yet.\<close>

definition unconnected :: "system \<Rightarrow> bool" where
  "unconnected st = (\<forall>n. ancestors (heap st n) = [] \<and> descendants (heap st n) = [])"

subsection \<open>The error channel\<close>

text \<open>
  \<^verbatim>\<open>Q_EMIT raise(message)\<close>: the signal is observed, and every queued connection from this
  node's \<^verbatim>\<open>raise\<close> posts a call of the receiver's \<^verbatim>\<open>abort\<close> with the same message.
\<close>

definition emit_raise :: "nat \<Rightarrow> string \<Rightarrow> system \<Rightarrow> system" where
  "emit_raise n message st =
     (emit (Raise n message) st)
       \<lparr>posted := posted st @
                    map (\<lambda>c. AbortCall (snd c) message) (filter (\<lambda>c. fst c = n) (conns st))\<rparr>"

definition abort :: "nat \<Rightarrow> string \<Rightarrow> system \<Rightarrow> system" where
  "abort n message st = emit_raise n message st"

text \<open>The declaration \<^verbatim>\<open>void abort(QString message = "Unknown Error") const\<close>.\<close>

definition abort_default :: "nat \<Rightarrow> system \<Rightarrow> system" where
  "abort_default n st = abort n ''Unknown Error'' st"

subsection \<open>The schedulers\<close>

text \<open>
  \<^verbatim>\<open>run\<close> is pure virtual: each node brings its own procedure. A procedure maps the node to
  the node it leaves behind and lists the messages it passes to \<^verbatim>\<open>abort\<close> on the way.
\<close>

type_synonym run_procedure = "QAlgorithm \<Rightarrow> QAlgorithm \<times> string list"

definition run :: "(nat \<Rightarrow> run_procedure) \<Rightarrow> nat \<Rightarrow> system \<Rightarrow> system" where
  "run procs n st =
     (let r = procs n (heap st n)
      in foldl (\<lambda>s message. abort n message s)
           (emit (Run n) (update_node n (\<lambda>_. fst r) st)) (snd r))"

definition isStarted :: "QAlgorithm \<Rightarrow> bool" where
  "isStarted n = started n"

definition isFinished :: "QAlgorithm \<Rightarrow> bool" where
  "isFinished n = finished n"

definition allInputsReady :: "QAlgorithm \<Rightarrow> bool" where
  "allInputsReady n = (False \<notin> set (qmap_values (ancestors n)))"

definition setStarted :: "nat \<Rightarrow> system \<Rightarrow> system" where
  "setStarted n st = emit (JustStarted n) (update_node n (\<lambda>x. x\<lparr>started := True\<rparr>) st)"

definition findAncestor :: "system \<Rightarrow> nat \<Rightarrow> nat \<Rightarrow> nat option" where
  "findAncestor st this ancestor =
     find (\<lambda>shr_ancestor. shr_ancestor = ancestor) (qmap_keys (ancestors (heap st this)))"

definition findDescendant :: "system \<Rightarrow> nat \<Rightarrow> nat \<Rightarrow> nat option" where
  "findDescendant st this descendant =
     find (\<lambda>shr_descendant. shr_descendant = descendant) (qmap_keys (descendants (heap st this)))"

text \<open>
  \<^verbatim>\<open>findSharedThis\<close>: a shared pointer to the node, taken from the first descendant or else
  the first ancestor that holds one; \<open>None\<close> is the null pointer.
\<close>

definition findSharedThis :: "system \<Rightarrow> nat \<Rightarrow> nat option" where
  "findSharedThis st this =
     (case find (\<lambda>descendant. findAncestor st descendant this \<noteq> None)
             (qmap_keys (descendants (heap st this))) of
        Some descendant \<Rightarrow> findAncestor st descendant this
      | None \<Rightarrow>
          (case find (\<lambda>ancestor. findDescendant st ancestor this \<noteq> None)
                  (qmap_keys (ancestors (heap st this))) of
             Some ancestor \<Rightarrow> findDescendant st ancestor this
           | None \<Rightarrow> None))"

text \<open>A loop over a list whose body may fail.\<close>

fun for_each :: "('a \<Rightarrow> 's \<Rightarrow> error + 's) \<Rightarrow> 'a list \<Rightarrow> 's \<Rightarrow> error + 's" where
  "for_each body [] st = Inr st"
| "for_each body (x # xs) st =
     (case body x st of Inl e \<Rightarrow> Inl e | Inr st' \<Rightarrow> for_each body xs st')"

text \<open>
  Lines 170 to 176: every property of this node whose name starts with \<^verbatim>\<open>algin_\<close> is set to
  \<^verbatim>\<open>QVariant()\<close>; the result of \<^verbatim>\<open>setProperty\<close> is not read.
\<close>

definition clearInputs :: "nat \<Rightarrow> system \<Rightarrow> system" where
  "clearInputs this st =
     foldl (\<lambda>s name.
              if startsWith name QA_IN
              then (case setProperty (heap s this) name Invalid of
                      None \<Rightarrow> s
                    | Some n' \<Rightarrow> update_node this (\<lambda>_. n') s)
              else s)
       st (propertyNames (heap st this))"

text \<open>
  The three procedures call each other, and nothing in the source bounds the recursion
  (the graph may have a cycle), so each takes fuel and fails with \<open>OutOfFuel\<close> when it is
  used up.

  \<^verbatim>\<open>parallelExecution\<close> hands a ready node to the thread pool and returns at once.
  \<^verbatim>\<open>serialExecution\<close> calls \<^verbatim>\<open>run\<close> inline and then \<^verbatim>\<open>setFinished\<close> (written out in its last
  two lines), whose signal \<^verbatim>\<open>justFinished\<close> is connected to \<^verbatim>\<open>propagateExecution\<close> by
  \<^verbatim>\<open>setup\<close>: a direct call, on the same thread. Both loops over ancestors range over
  \<^verbatim>\<open>getAncestors().keys(false)\<close> as it is when the loop begins, and the loops of
  \<^verbatim>\<open>propagateExecution\<close> range over copies of the key lists as well.
\<close>

fun parallelExecution :: "(nat \<Rightarrow> run_procedure) \<Rightarrow> nat \<Rightarrow> nat \<Rightarrow> system \<Rightarrow> error + system"
  and serialExecution :: "(nat \<Rightarrow> run_procedure) \<Rightarrow> nat \<Rightarrow> nat \<Rightarrow> system \<Rightarrow> error + system"
  and propagateExecution :: "(nat \<Rightarrow> run_procedure) \<Rightarrow> nat \<Rightarrow> nat \<Rightarrow> system \<Rightarrow> error + system"
where
  "parallelExecution procs 0 this st = Inl OutOfFuel"
| "parallelExecution procs (Suc fuel) this st =
     (if allInputsReady (heap st this)
      then (let st1 = setStarted this st in Inr (st1\<lparr>pool := pool st1 @ [this]\<rparr>))
      else for_each
             (\<lambda>ancestor s.
                if \<not> isStarted (heap s ancestor) then parallelExecution procs fuel ancestor s
                else Inr s)
             (qmap_keys_of False (ancestors (heap st this))) st)"
| "serialExecution procs 0 this st = Inl OutOfFuel"
| "serialExecution procs (Suc fuel) this st =
     (case (if \<not> allInputsReady (heap st this)
            then for_each
                   (\<lambda>ancestor s.
                      if \<not> isStarted (heap s ancestor) then serialExecution procs fuel ancestor s
                      else Inr s)
                   (qmap_keys_of False (ancestors (heap st this))) st
            else Inr st) of
        Inl e \<Rightarrow> Inl e
      | Inr st1 \<Rightarrow>
          (let st2 = update_node this (\<lambda>x. x\<lparr>par_ParallelExecution := False\<rparr>) st1;
               st3 = setStarted this st2;
               st4 = run procs this st3
           in propagateExecution procs fuel this
                (emit (JustFinished this) (update_node this (\<lambda>x. x\<lparr>finished := True\<rparr>) st4))))"
| "propagateExecution procs 0 this st = Inl OutOfFuel"
| "propagateExecution procs (Suc fuel) this st =
     (case findSharedThis st this of
        None \<Rightarrow> Inr st
      | Some shr_this \<Rightarrow>
          (let st1 = foldl (\<lambda>s ancestor.
                              update_node ancestor
                                (\<lambda>a. a\<lparr>descendants := qmap_set shr_this True (descendants a)\<rparr>) s)
                       st (qmap_keys (ancestors (heap st this)))
           in for_each
                (\<lambda>descendant s.
                   (let s1 = update_node descendant
                               (\<lambda>d. d\<lparr>ancestors := qmap_set shr_this True (ancestors d)\<rparr>) s
                    in case getInput s1 descendant shr_this of
                         Inl e \<Rightarrow> Inl e
                       | Inr r \<Rightarrow>
                           (let s2 = snd r;
                                s3 = (if \<not> par_KeepInput (heap s2 descendant)
                                      then clearInputs this (closeConnection shr_this descendant s2)
                                      else s2)
                            in if \<not> isStarted (heap s3 descendant)
                               then (if par_ParallelExecution (heap s3 this)
                                     then parallelExecution procs fuel descendant s3
                                     else serialExecution procs fuel descendant s3)
                               else Inr s3)))
                (qmap_keys (descendants (heap st1 this))) st1))"

text \<open>
  \<^verbatim>\<open>setFinished\<close>: the flag is set and \<^verbatim>\<open>justFinished\<close> is emitted, which calls
  \<^verbatim>\<open>propagateExecution\<close>.
\<close>

definition setFinished ::
  "(nat \<Rightarrow> run_procedure) \<Rightarrow> nat \<Rightarrow> nat \<Rightarrow> system \<Rightarrow> error + system" where
  "setFinished procs fuel this st =
     propagateExecution procs fuel this
       (emit (JustFinished this) (update_node this (\<lambda>x. x\<lparr>finished := True\<rparr>) st))"

text \<open>
  What happens after \<^verbatim>\<open>parallelExecution\<close> has returned is not decided by the program but
  by the threads: a worker executes the \<^verbatim>\<open>run\<close> of a node of the pool, after which the
  watcher's report is posted (\<open>Work i\<close>, for the \<open>i\<close>-th node of the pool), or the owning
  thread takes the first event of its queue (\<open>Event\<close>): a posted \<^verbatim>\<open>abort\<close> call is made, a
  watcher's report calls \<^verbatim>\<open>setFinished\<close>. The loop follows a list of such choices.
\<close>

datatype choice = Work nat | Event

definition workerRuns :: "(nat \<Rightarrow> run_procedure) \<Rightarrow> nat \<Rightarrow> system \<Rightarrow> system" where
  "workerRuns procs i st =
     (let this = pool st ! i;
          st1 = run procs this (st\<lparr>pool := take i (pool st) @ drop (Suc i) (pool st)\<rparr>)
      in st1\<lparr>posted := posted st1 @ [WatcherFinished this]\<rparr>)"

definition processEvent ::
  "(nat \<Rightarrow> run_procedure) \<Rightarrow> nat \<Rightarrow> system \<Rightarrow> error + system" where
  "processEvent procs fuel st =
     (case posted st of
        [] \<Rightarrow> Inr st
      | AbortCall receiver message # events \<Rightarrow> Inr (abort receiver message (st\<lparr>posted := events\<rparr>))
      | WatcherFinished this # events \<Rightarrow> setFinished procs fuel this (st\<lparr>posted := events\<rparr>))"

fun eventLoop ::
  "(nat \<Rightarrow> run_procedure) \<Rightarrow> nat \<Rightarrow> choice list \<Rightarrow> system \<Rightarrow> error + system" where
  "eventLoop procs fuel [] st = Inr st"
| "eventLoop procs fuel (Work i # cs) st =
     (if i < length (pool st) then eventLoop procs fuel cs (workerRuns procs i st)
      else eventLoop procs fuel cs st)"
| "eventLoop procs fuel (Event # cs) st =
     (case processEvent procs fuel st of
        Inl e \<Rightarrow> Inl e
      | Inr st' \<Rightarrow> eventLoop procs fuel cs st')"

definition quiescent :: "system \<Rightarrow> bool" where
  "quiescent st = (pool st = [] \<and> posted st = [])"

subsection \<open>The optimiser\<close>

text \<open>
  \<^verbatim>\<open>QSet<QAShrAlgorithm>\<close>: a list without repetition. Qt does not fix the order in which
  a set is traversed; the list keeps the order of insertion.
\<close>

definition qset_insert :: "nat \<Rightarrow> nat list \<Rightarrow> nat list" where
  "qset_insert x xs = (if x \<in> set xs then xs else xs @ [x])"

type_synonym QAFlatRepresentation = "nat list qmap"

text \<open>
  \<^verbatim>\<open>flattenTree\<close> recurses into every relative that is not yet a key of the tree; it takes
  fuel. Its two warnings are not part of the result.
\<close>

fun flattenTree :: "system \<Rightarrow> nat \<Rightarrow> nat \<Rightarrow> QAFlatRepresentation \<Rightarrow> error + QAFlatRepresentation"
where
  "flattenTree st 0 this tree = Inl OutOfFuel"
| "flattenTree st (Suc fuel) this tree =
     (if this \<notin> set (qmap_keys tree)
      then (case findSharedThis st this of
              None \<Rightarrow> Inr tree
            | Some shr_this \<Rightarrow>
                (let tree1 = qmap_set shr_this [] tree;
                     tree2 = foldl (\<lambda>t descendant.
                                      qmap_set shr_this
                                        (qset_insert descendant (qmap_value [] t shr_this)) t)
                               tree1 (qmap_keys (descendants (heap st this)))
                 in for_each
                      (\<lambda>relative t.
                         if \<not> qmap_contains relative t then flattenTree st fuel relative t
                         else Inr t)
                      (qmap_keys (descendants (heap st this)) @ qmap_keys (ancestors (heap st this)))
                      tree2))
      else Inr tree)"

text \<open>Lines 552 to 563: the removable connections, by parent.\<close>

definition removableConnections :: "system \<Rightarrow> QAFlatRepresentation \<Rightarrow> nat list qmap" where
  "removableConnections st flatMap =
     foldl (\<lambda>replacements ptr.
              foldl (\<lambda>r child.
                       if isRemovableConnection ptr child st
                       then qmap_set ptr (qmap_value [] r ptr @ [child]) r
                       else r)
                replacements (qmap_value [] flatMap ptr))
       [] (qmap_keys flatMap)"

text \<open>
  Lines 569 to 580: one pass over the keys, up to the first key \<open>p1\<close> whose list ends in a
  node \<open>p2\<close> that is a key itself; then the list of \<open>p2\<close> is taken out of the map and
  appended to the list of \<open>p1\<close>. \<open>None\<close>: the pass changed nothing.
\<close>

fun linkPass :: "nat list qmap \<Rightarrow> nat list \<Rightarrow> error + nat list qmap option" where
  "linkPass replacements [] = Inr None"
| "linkPass replacements (p1 # keys) =
     (case qlist_last (qmap_value [] replacements p1) of
        Inl e \<Rightarrow> Inl e
      | Inr p2 \<Rightarrow>
          if qmap_contains p2 replacements
          then (let taken = qmap_value [] replacements p2;
                    r1 = qmap_remove p2 replacements
                in Inr (Some (qmap_set p1 (qmap_value [] r1 p1 @ taken) r1)))
          else linkPass replacements keys)"

text \<open>Lines 565 to 581: the passes are repeated while one of them changes the map.\<close>

fun linkReplacements :: "nat \<Rightarrow> nat list qmap \<Rightarrow> error + nat list qmap" where
  "linkReplacements 0 replacements = Inl OutOfFuel"
| "linkReplacements (Suc fuel) replacements =
     (case linkPass replacements (qmap_keys replacements) of
        Inl e \<Rightarrow> Inl e
      | Inr None \<Rightarrow> Inr replacements
      | Inr (Some replacements') \<Rightarrow> linkReplacements fuel replacements')"

text \<open>
  Lines 583 to 591: in every list of the map, each node except the last is told to
  execute its children serially. \<^verbatim>\<open>removeLast\<close> asserts that the list is not empty.
\<close>

definition serialiseChain :: "nat list \<Rightarrow> system \<Rightarrow> error + system" where
  "serialiseChain nodes st =
     (if nodes = [] then Inl EmptyListAccess
      else Inr (foldl (\<lambda>s node. update_node node (\<lambda>x. x\<lparr>par_ParallelExecution := False\<rparr>) s)
                  st (butlast nodes)))"

definition improveTree :: "nat \<Rightarrow> nat \<Rightarrow> system \<Rightarrow> error + system" where
  "improveTree fuel leaf st =
     (case flattenTree st fuel leaf [] of
        Inl e \<Rightarrow> Inl e
      | Inr flatMap \<Rightarrow>
          (case linkReplacements fuel (removableConnections st flatMap) of
             Inl e \<Rightarrow> Inl e
           | Inr replacements \<Rightarrow> for_each serialiseChain (qmap_values replacements) st))"

section \<open>Example nodes and graphs\<close>

text \<open>
  The setter and the getter that \<^verbatim>\<open>QA_OUTPUT\<close> and \<^verbatim>\<open>QA_INPUT\<close> generate: \<^verbatim>\<open>setOut<Name>\<close>
  assigns the member, \<^verbatim>\<open>getIn<Name>\<close> reads it.
\<close>

definition setOut :: "string \<Rightarrow> QVariant \<Rightarrow> QAlgorithm \<Rightarrow> QAlgorithm" where
  "setOut name v n =
     n\<lparr>slots := map (\<lambda>p. if pname p = QA_OUT @ name then p\<lparr>pvalue := v\<rparr> else p) (slots n)\<rparr>"

definition getIn :: "string \<Rightarrow> QAlgorithm \<Rightarrow> QVariant" where
  "getIn name n = read_slot (slots n) (QA_IN @ name)"

definition observe :: "(system \<Rightarrow> 'a) \<Rightarrow> error + system \<Rightarrow> 'a option" where
  "observe f r = (case r of Inl e \<Rightarrow> None | Inr st \<Rightarrow> Some (f st))"

definition runs_of :: "nat \<Rightarrow> event list \<Rightarrow> nat" where
  "runs_of n tr = length (filter (\<lambda>e. e = Run n) tr)"

text \<open>
  A source writes the number 5 to its output \<^verbatim>\<open>X\<close>; a forwarder copies its input \<^verbatim>\<open>X\<close> to
  its output \<^verbatim>\<open>X\<close>. Both procedures are functions of the node's inputs alone.
\<close>

definition source_run :: run_procedure where
  "source_run n = (setOut ''X'' (QInt 5) n, [])"

definition forward_run :: run_procedure where
  "forward_run n = (setOut ''X'' (getIn ''X'' n) n, [])"

definition source_node :: QAlgorithm where
  "source_node = new_QAlgorithm [] [\<lparr>pname = ''algout_X'', ptype = TInt, pvalue = Invalid\<rparr>]"

definition forward_node :: QAlgorithm where
  "forward_node = new_QAlgorithm []
     [\<lparr>pname = ''algin_X'', ptype = TInt, pvalue = Invalid\<rparr>,
      \<lparr>pname = ''algout_X'', ptype = TInt, pvalue = Invalid\<rparr>]"

definition chain_procs :: "nat \<Rightarrow> run_procedure" where
  "chain_procs i = (if i = 0 then source_run else forward_run)"

definition fresh_system :: "(nat \<Rightarrow> QAlgorithm) \<Rightarrow> system" where
  "fresh_system h = \<lparr>heap = h, conns = [], posted = [], pool = [], trace = []\<rparr>"

text \<open>The chain \<open>0 \<rightarrow> 1\<close> and the chain \<open>0 \<rightarrow> 1 \<rightarrow> 2\<close>: a source followed by forwarders.\<close>

definition chain2 :: system where
  "chain2 = setConnection 0 1 (fresh_system ((\<lambda>_. forward_node)(0 := source_node)))"

definition chain3 :: system where
  "chain3 = setConnection 1 2 chain2"

text \<open>
  \<^verbatim>\<open>parallelExecution\<close> followed by the work of the threads, along a list of choices.
\<close>

definition parallelRun ::
  "(nat \<Rightarrow> run_procedure) \<Rightarrow> nat \<Rightarrow> nat \<Rightarrow> choice list \<Rightarrow> system \<Rightarrow> error + system" where
  "parallelRun procs fuel this cs st =
     (case parallelExecution procs fuel this st of
        Inl e \<Rightarrow> Inl e
      | Inr st' \<Rightarrow> eventLoop procs fuel cs st')"

text \<open>
  The states that the chain \<open>0 \<rightarrow> 1 \<rightarrow> 2\<close> goes through after \<^verbatim>\<open>parallelExecution\<close> on node 2:
  a worker runs the one node of the pool, then the owning thread takes the one event of
  its queue, three times over.
\<close>

definition chain3_s0 :: system where
  "chain3_s0 = projr (parallelExecution chain_procs 20 2 chain3)"

definition chain3_s1 :: system where
  "chain3_s1 = workerRuns chain_procs 0 chain3_s0"

definition chain3_s2 :: system where
  "chain3_s2 = projr (processEvent chain_procs 20 chain3_s1)"

definition chain3_s3 :: system where
  "chain3_s3 = workerRuns chain_procs 0 chain3_s2"

definition chain3_s4 :: system where
  "chain3_s4 = projr (processEvent chain_procs 20 chain3_s3)"

definition chain3_s5 :: system where
  "chain3_s5 = workerRuns chain_procs 0 chain3_s4"

definition chain3_s6 :: system where
  "chain3_s6 = projr (processEvent chain_procs 20 chain3_s5)"

text \<open>
  A node that counts its executions: its \<^verbatim>\<open>run\<close> adds one to the number in its output \<^verbatim>\<open>X\<close>
  (an output that has not been written counts as 0).
\<close>

definition counting_run :: run_procedure where
  "counting_run n =
     (setOut ''X'' (case property n ''algout_X'' of QInt k \<Rightarrow> QInt (k + 1) | _ \<Rightarrow> QInt 1) n, [])"

definition counting_procs :: "nat \<Rightarrow> run_procedure" where
  "counting_procs i = (if i = 0 then source_run else counting_run)"

text \<open>
  Two forwarders \<open>0 \<rightarrow> 1\<close>; the input of node 0 has been set to 7 by the user, and the
  \<^verbatim>\<open>KeepInput\<close> parameters of the two nodes are given.
\<close>

definition keep_example :: "bool \<Rightarrow> bool \<Rightarrow> system" where
  "keep_example keep_parent keep_child =
     setConnection 0 1 (fresh_system ((\<lambda>_. forward_node)
       (0 := (new_QAlgorithm []
                [\<lparr>pname = ''algin_X'', ptype = TInt, pvalue = QInt 7\<rparr>,
                 \<lparr>pname = ''algout_X'', ptype = TInt, pvalue = Invalid\<rparr>])
              \<lparr>par_KeepInput := keep_parent\<rparr>,
        1 := forward_node\<lparr>par_KeepInput := keep_child\<rparr>)))"

text \<open>
  A parent with three parameters and an output, and a child whose rules rename \<^verbatim>\<open>Size\<close> to
  \<^verbatim>\<open>Window\<close> and \<^verbatim>\<open>Order\<close> to \<^verbatim>\<open>Rank\<close>. The child has inputs \<^verbatim>\<open>Window\<close>, \<^verbatim>\<open>Order\<close>, \<^verbatim>\<open>Depth\<close> and
  \<^verbatim>\<open>X\<close>, and no slot \<^verbatim>\<open>Rank\<close>.
\<close>

definition param_example :: system where
  "param_example =
     setConnection 0 1 (fresh_system ((\<lambda>_. forward_node)
       (0 := new_QAlgorithm []
               [\<lparr>pname = ''par_Size'', ptype = TInt, pvalue = QInt 3\<rparr>,
                \<lparr>pname = ''par_Order'', ptype = TInt, pvalue = QInt 50\<rparr>,
                \<lparr>pname = ''par_Depth'', ptype = TInt, pvalue = QInt 9\<rparr>,
                \<lparr>pname = ''algout_X'', ptype = TInt, pvalue = QInt 5\<rparr>],
        1 := (new_QAlgorithm []
               [\<lparr>pname = ''algin_Window'', ptype = TInt, pvalue = Invalid\<rparr>,
                \<lparr>pname = ''algin_Order'', ptype = TInt, pvalue = Invalid\<rparr>,
                \<lparr>pname = ''algin_Depth'', ptype = TInt, pvalue = Invalid\<rparr>,
                \<lparr>pname = ''algin_X'', ptype = TInt, pvalue = Invalid\<rparr>])
             \<lparr>par_PropagationRules :=
                makePropagationRules [(''Size'', ''Window''), (''Order'', ''Rank'')]\<rparr>)))"

text \<open>
  A parent with four outputs: \<^verbatim>\<open>X\<close> holds a vector, \<^verbatim>\<open>Y\<close> and \<^verbatim>\<open>W\<close> hold numbers, \<^verbatim>\<open>Z\<close> is a
  \<^verbatim>\<open>QVariant\<close> that has not been written. The child has the integer inputs \<^verbatim>\<open>X\<close>, \<^verbatim>\<open>Y\<close> and
  \<^verbatim>\<open>Z\<close>, and no slot \<^verbatim>\<open>W\<close>.
\<close>

definition mismatch_example :: system where
  "mismatch_example =
     setConnection 0 1 (fresh_system ((\<lambda>_. forward_node)
       (0 := new_QAlgorithm []
               [\<lparr>pname = ''algout_X'', ptype = TVector, pvalue = QVector [1, 2]\<rparr>,
                \<lparr>pname = ''algout_Y'', ptype = TInt, pvalue = QInt 2\<rparr>,
                \<lparr>pname = ''algout_Z'', ptype = TVariant, pvalue = Invalid\<rparr>,
                \<lparr>pname = ''algout_W'', ptype = TInt, pvalue = QInt 4\<rparr>],
        1 := new_QAlgorithm []
               [\<lparr>pname = ''algin_X'', ptype = TInt, pvalue = Invalid\<rparr>,
                \<lparr>pname = ''algin_Y'', ptype = TInt, pvalue = Invalid\<rparr>,
                \<lparr>pname = ''algin_Z'', ptype = TInt, pvalue = Invalid\<rparr>])))"

text \<open>
  A generator whose parameter is out of range: its \<^verbatim>\<open>run\<close> calls \<^verbatim>\<open>abort\<close> and returns
  without writing an output.
\<close>

definition aborting_run :: run_procedure where
  "aborting_run n = (n, [''amount must be positive''])"

definition abort_procs :: "nat \<Rightarrow> run_procedure" where
  "abort_procs i = (if i = 0 then aborting_run else forward_run)"

section \<open>Notions used in the statements\<close>

text \<open>The child property \<open>childPropName\<close> is a target for the base name \<open>cbase\<close> (line 240).\<close>

definition matches :: "string \<Rightarrow> string \<Rightarrow> bool" where
  "matches cbase childPropName =
     (childPropName = QA_IN @ cbase \<or> childPropName = QA_PAR @ cbase)"

text \<open>
  The parent property \<open>parentPropName\<close> is an output or a parameter with base name \<open>base\<close>
  and passes the test of line 230: it is not a parameter that the rules do not mention.
\<close>

definition offered :: "QAPropagationRules \<Rightarrow> string \<Rightarrow> string \<Rightarrow> bool" where
  "offered rules parentPropName base =
     (parentPropBaseName parentPropName = Some base \<and>
      \<not> (startsWith parentPropName QA_PAR \<and> \<not> rules_contains rules base))"

text \<open>The adjacency maps of all nodes agree on every connection.\<close>

definition symmetric :: "system \<Rightarrow> bool" where
  "symmetric st =
     (\<forall>a d. qmap_contains d (descendants (heap st a)) = qmap_contains a (ancestors (heap st d)))"

text \<open>In a trace, node \<open>n\<close> emits \<^verbatim>\<open>raise\<close> and its \<^verbatim>\<open>run\<close> is called later.\<close>

fun run_after_raise :: "nat \<Rightarrow> event list \<Rightarrow> bool" where
  "run_after_raise n [] = False"
| "run_after_raise n (e # es) =
     ((case e of Raise k _ \<Rightarrow> k = n \<and> Run n \<in> set es | _ \<Rightarrow> False) \<or> run_after_raise n es)"

text \<open>What the statements below read off the result of a transfer or of an execution.\<close>

definition child_cells :: "nat \<Rightarrow> error + bool \<times> system \<Rightarrow> error + bool \<times> QVariant list" where
  "child_cells c r = map_sum id (\<lambda>x. (fst x, map pvalue (slots (heap (snd x) c)))) r"

definition transfer_outcome ::
  "nat \<Rightarrow> string \<Rightarrow> error + bool \<times> system \<Rightarrow> error + bool \<times> QVariant \<times> event list" where
  "transfer_outcome c name r =
     map_sum id (\<lambda>x. (fst x, property (heap (snd x) c) name, trace (snd x))) r"

definition outputs_X :: "system \<Rightarrow> QVariant list" where
  "outputs_X st = map (\<lambda>i. property (heap st i) ''algout_X'') [0, 1, 2]"

definition serial_flags :: "system \<Rightarrow> bool list" where
  "serial_flags st = map (\<lambda>i. \<not> par_ParallelExecution (heap st i)) [0, 1, 2]"

definition run_counts :: "system \<Rightarrow> nat list" where
  "run_counts st = map (\<lambda>i. runs_of i (trace st)) [0, 1, 2]"

text \<open>
  Of the parent 0 and the child 1: the parent's \<^verbatim>\<open>KeepInput\<close>, the child's \<^verbatim>\<open>KeepInput\<close>,
  whether the parent has finished, the child's input, the parent's input, and whether the
  two are still connected.
\<close>

definition release_state ::
  "system \<Rightarrow> bool \<times> bool \<times> bool \<times> QVariant \<times> QVariant \<times> bool" where
  "release_state st =
     (par_KeepInput (heap st 0), par_KeepInput (heap st 1), finished (heap st 0),
      property (heap st 1) ''algin_X'', property (heap st 0) ''algin_X'',
      checkConnection 0 1 st)"

section \<open>Properties of the graph operations\<close>

lemma keys_qmap_set: "set (map fst (qmap_set k v m)) = insert k (set (map fst m))"
proof (induction m)
  case Nil
  show ?case by simp
next
  case (Cons e m)
  obtain k' v' where e: "e = (k', v')" by (cases e)
  show ?case using Cons.IH unfolding e by (simp add: insert_commute)
qed

lemma qmap_contains_set: "qmap_contains j (qmap_set k v m) = (j = k \<or> qmap_contains j m)"
  by (simp add: qmap_contains_def qmap_keys_def keys_qmap_set del: set_map)

lemma qmap_contains_remove: "qmap_contains j (qmap_remove k m) = (j \<noteq> k \<and> qmap_contains j m)"
  by (auto simp: qmap_contains_def qmap_remove_def qmap_keys_def)

lemma symmetric_setConnection: "symmetric st \<Longrightarrow> symmetric (setConnection x y st)"
  unfolding symmetric_def setConnection_def update_node_def Let_def
  by (auto simp: qmap_contains_set)

lemma symmetric_closeConnection: "symmetric st \<Longrightarrow> symmetric (closeConnection x y st)"
  unfolding symmetric_def closeConnection_def update_node_def Let_def
  by (auto simp: qmap_contains_remove)

lemma symmetric_graph_calls: "symmetric st \<Longrightarrow> symmetric (graph_calls cs st)"
  unfolding graph_calls_def
proof (induction cs arbitrary: st)
  case Nil
  then show ?case by simp
next
  case (Cons c cs)
  have "symmetric (apply_call st c)"
    using Cons.prems by (cases c) (simp_all add: symmetric_setConnection symmetric_closeConnection)
  then show ?case using Cons.IH by simp
qed

lemma unconnected_symmetric: "unconnected st \<Longrightarrow> symmetric st"
  by (simp add: unconnected_def symmetric_def qmap_contains_def qmap_keys_def)

text \<open>
  Claim C8. Starting from nodes that have no connection, after any sequence of
  \<^verbatim>\<open>setConnection\<close> and \<^verbatim>\<open>closeConnection\<close> calls the adjacency maps are symmetric: for all
  nodes \<open>a\<close> and \<open>d\<close>, \<open>d\<close> is a key of the descendants map of \<open>a\<close> exactly when \<open>a\<close> is a key
  of the ancestors map of \<open>d\<close>.
\<close>

theorem connections_symmetric:
  assumes "unconnected st"
  shows "qmap_contains d (descendants (heap (graph_calls cs st) a)) \<longleftrightarrow>
         qmap_contains a (ancestors (heap (graph_calls cs st) d))"
  using symmetric_graph_calls [OF unconnected_symmetric [OF assms], of cs]
  by (simp add: symmetric_def)

theorem connections_symmetric_witness:
  "unconnected (fresh_system (\<lambda>_. forward_node)) \<and>
   (qmap_contains 2 (descendants (heap (graph_calls
        [Connect 0 1, Connect 1 2, Connect 0 2, Disconnect 0 1, Connect 0 2]
        (fresh_system (\<lambda>_. forward_node))) 0)) \<longleftrightarrow>
    qmap_contains 0 (ancestors (heap (graph_calls
        [Connect 0 1, Connect 1 2, Connect 0 2, Disconnect 0 1, Connect 0 2]
        (fresh_system (\<lambda>_. forward_node))) 2)))"
proof -
  have h: "unconnected (fresh_system (\<lambda>_. forward_node))"
    by (simp add: unconnected_def fresh_system_def forward_node_def new_QAlgorithm_def)
  show ?thesis
    using h connections_symmetric [OF h] by blast
qed

text \<open>
  Claim C10. \<^verbatim>\<open>abort(message)\<close> only emits \<^verbatim>\<open>raise(message)\<close>: the signal is appended to
  what has been observed and delivered to the queued connections of the node, and the
  message is \<^verbatim>\<open>"Unknown Error"\<close> when none is given. The store of nodes is left as it was,
  so the \<open>started\<close> and \<open>finished\<close> flags, the ancestors and descendants maps and the slot
  values of every node are unchanged, and so are the connections and the thread pool.
\<close>

theorem abort_only_raises:
  "heap (abort n message st) = heap st \<and>
   trace (abort n message st) = trace st @ [Raise n message] \<and>
   posted (abort n message st) =
     posted st @ map (\<lambda>c. AbortCall (snd c) message) (filter (\<lambda>c. fst c = n) (conns st)) \<and>
   conns (abort n message st) = conns st \<and>
   pool (abort n message st) = pool st \<and>
   abort_default n st = abort n ''Unknown Error'' st"
  by (simp add: abort_def abort_default_def emit_raise_def emit_def)

section \<open>Properties of the transfer\<close>

lemma rules_contains_values: "rules_contains rules s \<longleftrightarrow> rules_values rules s \<noteq> []"
  by (induction rules) (auto simp: rules_contains_def rules_values_def)

lemma first_match:
  assumes "\<forall>u\<in>set pre. \<not> P u" and "P t"
  shows "filter P (pre @ t # post) = t # filter P post"
  using assms by (induction pre) simp_all

lemma childPropBaseName_no_match:
  assumes "1 < length (rules_values rules s)"
    and "\<forall>u\<in>set (rules_values rules s). \<not> contains u P"
  shows "childPropBaseName rules P s = Inl EmptyListAccess"
proof -
  have "rules_contains rules s"
    using assms(1) by (auto simp: rules_contains_values)
  moreover have "filter (\<lambda>v. contains v P) (rules_values rules s) = []"
    using assms(2) by (simp add: filter_empty_conv)
  ultimately show ?thesis
    using assms(1) by (simp add: childPropBaseName_def qlist_first_def)
qed

text \<open>
  Claim C4. The name \<open>t\<close> under which a parent named \<open>P\<close> offers its slot with base name
  \<open>s\<close> to a child with the rules \<open>rules\<close>: \<open>s\<close> itself when the rules do not mention \<open>s\<close>;
  the mapped value when the rules hold exactly one value for \<open>s\<close>; and otherwise the first
  of the values of \<open>s\<close> that contain \<open>P\<close>, in the order of \<^verbatim>\<open>values(s)\<close>.
\<close>

theorem childPropBaseName_resolution:
  "(\<not> rules_contains rules s \<longrightarrow> childPropBaseName rules P s = Inr s) \<and>
   (rules_values rules s = [t] \<longrightarrow> childPropBaseName rules P s = Inr t) \<and>
   (1 < length (rules_values rules s) \<and> rules_values rules s = pre @ t # post \<and>
    (\<forall>u\<in>set pre. \<not> contains u P) \<and> contains t P
      \<longrightarrow> childPropBaseName rules P s = Inr t)"
proof (intro conjI impI)
  assume "\<not> rules_contains rules s"
  then show "childPropBaseName rules P s = Inr s"
    by (simp add: childPropBaseName_def)
next
  assume one: "rules_values rules s = [t]"
  then have "rules_contains rules s"
    by (simp add: rules_contains_values)
  then show "childPropBaseName rules P s = Inr t"
    using one by (simp add: childPropBaseName_def qlist_first_def)
next
  assume many: "1 < length (rules_values rules s) \<and> rules_values rules s = pre @ t # post \<and>
    (\<forall>u\<in>set pre. \<not> contains u P) \<and> contains t P"
  then have len: "1 < length (rules_values rules s)"
    by blast
  then have c: "rules_contains rules s"
    by (auto simp: rules_contains_values)
  have f: "filter (\<lambda>v. contains v P) (rules_values rules s)
             = t # filter (\<lambda>v. contains v P) post"
    using many first_match [of pre "\<lambda>v. contains v P" t post] by simp
  have "childPropBaseName rules P s
          = qlist_first (filter (\<lambda>v. contains v P) (rules_values rules s))"
    using c len by (simp add: childPropBaseName_def Let_def)
  also have "\<dots> = Inr t"
    unfolding f by (simp add: qlist_first_def)
  finally show "childPropBaseName rules P s = Inr t" .
qed

theorem childPropBaseName_resolution_witness:
  "childPropBaseName (makePropagationRules [(''Numbers'', ''Array'')]) ''gen1'' ''Size''
     = Inr ''Size'' \<and>
   childPropBaseName (makePropagationRules [(''Numbers'', ''Array'')]) ''gen1'' ''Numbers''
     = Inr ''Array'' \<and>
   childPropBaseName
     (makePropagationRules [(''Numbers'', ''Array_gen1''), (''Numbers'', ''Array_gen2'')])
     ''gen1'' ''Numbers'' = Inr ''Array_gen1''"
proof -
  let ?r1 = "makePropagationRules [(''Numbers'', ''Array'')]"
  let ?r2 = "makePropagationRules [(''Numbers'', ''Array_gen1''), (''Numbers'', ''Array_gen2'')]"
  have one: "\<not> rules_contains ?r1 ''Size''" "rules_values ?r1 ''Numbers'' = [''Array'']"
    by code_simp+
  have two: "1 < length (rules_values ?r2 ''Numbers'')"
      "rules_values ?r2 ''Numbers'' = [''Array_gen2''] @ ''Array_gen1'' # []"
      "\<forall>u\<in>set [''Array_gen2'']. \<not> contains u ''gen1''"
      "contains ''Array_gen1'' ''gen1''"
    by code_simp+
  show ?thesis
    using childPropBaseName_resolution [where rules = ?r1 and s = "''Size''" and P = "''gen1''"]
          childPropBaseName_resolution
            [where rules = ?r1 and s = "''Numbers''" and t = "''Array''" and P = "''gen1''"]
          childPropBaseName_resolution
            [where rules = ?r2 and s = "''Numbers''" and pre = "[''Array_gen2'']"
               and t = "''Array_gen1''" and post = "[]" and P = "''gen1''"]
          one two
    by blast
qed

lemma assignMatching_skip:
  "\<forall>cn\<in>set pre. \<not> matches t cn \<Longrightarrow>
   assignMatching st c p pn t (pre @ cnames) = assignMatching st c p pn t cnames"
  by (induction pre) (simp_all add: matches_def)

lemma assignMatching_none:
  "\<forall>cn\<in>set cnames. \<not> matches t cn \<Longrightarrow> assignMatching st c p pn t cnames = (True, st)"
  using assignMatching_skip [of cnames t st c p pn "[]"] by simp

lemma assignMatching_one:
  assumes "\<forall>x\<in>set pre. \<not> matches t x" and "matches t cn" and "\<forall>x\<in>set post. \<not> matches t x"
    and "isValid (property (heap st p) pn)"
    and "setProperty (heap st c) cn (property (heap st p) pn) = Some c'"
  shows "assignMatching st c p pn t (pre @ cn # post) = (True, update_node c (\<lambda>_. c') st)"
  using assms by (simp add: assignMatching_skip assignMatching_none matches_def)

lemma assignMatching_first:
  assumes "\<forall>x\<in>set pre. \<not> matches t x" and "matches t cn"
  shows "assignMatching st c p pn t (pre @ cn # post) =
     (if isValid (property (heap st p) pn)
      then (case setProperty (heap st c) cn (property (heap st p) pn) of
              None \<Rightarrow> (False, emit (SetFailed c cn) st)
            | Some c' \<Rightarrow> assignMatching (update_node c (\<lambda>_. c') st) c p pn t post)
      else (False, emit (ReadFailed p pn) st))"
  using assms by (simp add: assignMatching_skip matches_def)

lemma parameter_name: "parentPropBaseName (QA_PAR @ s) = Some s \<and> startsWith (QA_PAR @ s) QA_PAR"
  by (simp add: parentPropBaseName_def startsWith_def QA_PAR_def QA_OUT_def mid_def)

lemma output_name: "parentPropBaseName (QA_OUT @ s) = Some s \<and> \<not> startsWith (QA_OUT @ s) QA_PAR"
  by (simp add: parentPropBaseName_def startsWith_def QA_PAR_def QA_OUT_def mid_def)

lemma getInput_loop_offered:
  assumes "offered (par_PropagationRules (heap st c)) pn s"
    and "childPropBaseName (par_PropagationRules (heap st c)) (objectName (heap st p)) s = Inr t"
  shows "getInput_loop st c p (pn # rest) =
     (case assignMatching st c p pn t (propertyNames (heap st c)) of
        (False, st') \<Rightarrow> Inr (False, st')
      | (True, st') \<Rightarrow> getInput_loop st' c p rest)"
  using assms by (auto simp: offered_def)

lemma getInput_loop_sticky:
  assumes "\<not> rules_contains (par_PropagationRules (heap st c)) s"
  shows "getInput_loop st c p ((QA_PAR @ s) # rest) = getInput_loop st c p rest"
  using assms parameter_name [of s] by (simp add: childPropBaseName_def)

lemma getInput_loop_written:
  assumes "offered (par_PropagationRules (heap st c)) pn s"
    and "childPropBaseName (par_PropagationRules (heap st c)) (objectName (heap st p)) s = Inr t"
    and "propertyNames (heap st c) = pre @ cn # post"
    and "\<forall>x\<in>set pre. \<not> matches t x" and "matches t cn" and "\<forall>x\<in>set post. \<not> matches t x"
    and "isValid (property (heap st p) pn)"
    and "setProperty (heap st c) cn (property (heap st p) pn) = Some c'"
  shows "getInput_loop st c p (pn # rest) = getInput_loop (update_node c (\<lambda>_. c') st) c p rest"
  using getInput_loop_offered [OF assms(1,2), of rest] assignMatching_one [OF assms(4-8)]
  by (simp add: assms(3))

lemma read_write_slot: "write_slot ps name v = Some ps' \<Longrightarrow> read_slot ps' name = v"
  by (induction ps arbitrary: ps') (auto split: if_splits)

lemma setProperty_property: "setProperty n name v = Some n' \<Longrightarrow> property n' name = v"
  by (auto simp: setProperty_def property_def read_write_slot split: if_splits QVariant.splits)

text \<open>
  Claim C5, as the code has it. A parameter of the parent that the child's rules do not
  mention is never propagated: the step of \<^verbatim>\<open>getInput\<close> for it changes nothing. A rule entry
  alone does not transfer a parameter: with an entry the parameter is handled as an
  output is (with or without an entry), and its value is written when the child has a
  property named \<^verbatim>\<open>algin_\<close>\<open>t\<close> or \<^verbatim>\<open>par_\<close>\<open>t\<close> for the resolved name \<open>t\<close> (here: exactly one), the
  parent's value is valid and the child accepts it; the child property then holds the
  parent's value.
\<close>

theorem parameter_transfer:
  "(\<not> rules_contains (par_PropagationRules (heap st c)) s \<longrightarrow>
      getInput_loop st c p ((QA_PAR @ s) # rest) = getInput_loop st c p rest) \<and>
   ((pn = QA_PAR @ s \<and> rules_contains (par_PropagationRules (heap st c)) s \<or> pn = QA_OUT @ s) \<and>
    childPropBaseName (par_PropagationRules (heap st c)) (objectName (heap st p)) s = Inr t \<and>
    propertyNames (heap st c) = pre @ cn # post \<and>
    (\<forall>x\<in>set pre. \<not> matches t x) \<and> matches t cn \<and> (\<forall>x\<in>set post. \<not> matches t x) \<and>
    isValid (property (heap st p) pn) \<and>
    setProperty (heap st c) cn (property (heap st p) pn) = Some c'
      \<longrightarrow> getInput_loop st c p (pn # rest) = getInput_loop (update_node c (\<lambda>_. c') st) c p rest \<and>
          property c' cn = property (heap st p) pn)"
proof (intro conjI impI)
  assume "\<not> rules_contains (par_PropagationRules (heap st c)) s"
  then show "getInput_loop st c p ((QA_PAR @ s) # rest) = getInput_loop st c p rest"
    by (rule getInput_loop_sticky)
next
  assume h: "(pn = QA_PAR @ s \<and> rules_contains (par_PropagationRules (heap st c)) s \<or> pn = QA_OUT @ s) \<and>
    childPropBaseName (par_PropagationRules (heap st c)) (objectName (heap st p)) s = Inr t \<and>
    propertyNames (heap st c) = pre @ cn # post \<and>
    (\<forall>x\<in>set pre. \<not> matches t x) \<and> matches t cn \<and> (\<forall>x\<in>set post. \<not> matches t x) \<and>
    isValid (property (heap st p) pn) \<and>
    setProperty (heap st c) cn (property (heap st p) pn) = Some c'"
  then have "offered (par_PropagationRules (heap st c)) pn s"
    using parameter_name [of s] output_name [of s] by (auto simp: offered_def)
  then show "getInput_loop st c p (pn # rest) = getInput_loop (update_node c (\<lambda>_. c') st) c p rest"
    using h getInput_loop_written by blast
next
  assume h: "(pn = QA_PAR @ s \<and> rules_contains (par_PropagationRules (heap st c)) s \<or> pn = QA_OUT @ s) \<and>
    childPropBaseName (par_PropagationRules (heap st c)) (objectName (heap st p)) s = Inr t \<and>
    propertyNames (heap st c) = pre @ cn # post \<and>
    (\<forall>x\<in>set pre. \<not> matches t x) \<and> matches t cn \<and> (\<forall>x\<in>set post. \<not> matches t x) \<and>
    isValid (property (heap st p) pn) \<and>
    setProperty (heap st c) cn (property (heap st p) pn) = Some c'"
  then show "property c' cn = property (heap st p) pn"
    using setProperty_property by blast
qed

theorem parameter_transfer_witness:
  "getInput_loop param_example 1 0 [''par_Depth''] = Inr (True, param_example) \<and>
   (\<exists>c'. getInput_loop param_example 1 0 [''par_Size'']
            = Inr (True, update_node 1 (\<lambda>_. c') param_example) \<and>
         property c' ''algin_Window'' = QInt 3) \<and>
   (\<exists>c'. getInput_loop param_example 1 0 [''algout_X'']
            = Inr (True, update_node 1 (\<lambda>_. c') param_example) \<and>
         property c' ''algin_X'' = QInt 5)"
proof -
  let ?builtin = "[''objectName'', ''par_KeepInput'', ''par_PropagationRules'',
                   ''par_ParallelExecution'', ''finished'', ''started'', ''ancestors'',
                   ''descendants'']"
  have depth: "\<not> rules_contains (par_PropagationRules (heap param_example 1)) ''Depth''"
    by code_simp
  have a: "getInput_loop param_example 1 0 [''par_Depth''] = Inr (True, param_example)"
    using parameter_transfer [where st = param_example and c = 1 and s = "''Depth''" and p = 0
        and rest = "[]"] depth
    by (simp add: QA_PAR_def)
  define w where "w = the (setProperty (heap param_example 1) ''algin_Window''
                             (property (heap param_example 0) ''par_Size''))"
  have "setProperty (heap param_example 1) ''algin_Window''
          (property (heap param_example 0) ''par_Size'') \<noteq> None"
    by code_simp
  then have w: "setProperty (heap param_example 1) ''algin_Window''
                  (property (heap param_example 0) ''par_Size'') = Some w"
    by (simp add: w_def)
  have size: "(''par_Size'' = QA_PAR @ ''Size'' \<and>
               rules_contains (par_PropagationRules (heap param_example 1)) ''Size'' \<or>
               ''par_Size'' = QA_OUT @ ''Size'')"
    and res: "childPropBaseName (par_PropagationRules (heap param_example 1))
                (objectName (heap param_example 0)) ''Size'' = Inr ''Window''"
    and names: "propertyNames (heap param_example 1)
                  = ?builtin @ ''algin_Window'' # [''algin_Order'', ''algin_Depth'', ''algin_X'']"
    and pre: "\<forall>x\<in>set ?builtin. \<not> matches ''Window'' x"
    and cn: "matches ''Window'' ''algin_Window''"
    and post: "\<forall>x\<in>set [''algin_Order'', ''algin_Depth'', ''algin_X'']. \<not> matches ''Window'' x"
    and valid: "isValid (property (heap param_example 0) ''par_Size'')"
    and val: "property (heap param_example 0) ''par_Size'' = QInt 3"
    by code_simp+
  have b: "getInput_loop param_example 1 0 [''par_Size'']
             = Inr (True, update_node 1 (\<lambda>_. w) param_example) \<and>
           property w ''algin_Window'' = QInt 3"
    using parameter_transfer [where st = param_example and c = 1 and s = "''Size''" and p = 0
        and pn = "''par_Size''" and t = "''Window''" and pre = ?builtin and cn = "''algin_Window''"
        and post = "[''algin_Order'', ''algin_Depth'', ''algin_X'']" and c' = w and rest = "[]"]
      size res names pre cn post valid w
    by (simp add: val)
  define x where "x = the (setProperty (heap param_example 1) ''algin_X''
                             (property (heap param_example 0) ''algout_X''))"
  have "setProperty (heap param_example 1) ''algin_X''
          (property (heap param_example 0) ''algout_X'') \<noteq> None"
    by code_simp
  then have x: "setProperty (heap param_example 1) ''algin_X''
                  (property (heap param_example 0) ''algout_X'') = Some x"
    by (simp add: x_def)
  have out: "(''algout_X'' = QA_PAR @ ''X'' \<and>
               rules_contains (par_PropagationRules (heap param_example 1)) ''X'' \<or>
               ''algout_X'' = QA_OUT @ ''X'')"
    and res': "childPropBaseName (par_PropagationRules (heap param_example 1))
                (objectName (heap param_example 0)) ''X'' = Inr ''X''"
    and names': "propertyNames (heap param_example 1)
                  = (?builtin @ [''algin_Window'', ''algin_Order'', ''algin_Depth'']) @ ''algin_X'' # []"
    and pre': "\<forall>x\<in>set (?builtin @ [''algin_Window'', ''algin_Order'', ''algin_Depth'']).
                 \<not> matches ''X'' x"
    and cn': "matches ''X'' ''algin_X''"
    and valid': "isValid (property (heap param_example 0) ''algout_X'')"
    and val': "property (heap param_example 0) ''algout_X'' = QInt 5"
    by code_simp+
  have c: "getInput_loop param_example 1 0 [''algout_X'']
             = Inr (True, update_node 1 (\<lambda>_. x) param_example) \<and>
           property x ''algin_X'' = QInt 5"
    using parameter_transfer [where st = param_example and c = 1 and s = "''X''" and p = 0
        and pn = "''algout_X''" and t = "''X''"
        and pre = "?builtin @ [''algin_Window'', ''algin_Order'', ''algin_Depth'']"
        and cn = "''algin_X''" and post = "[]" and c' = x and rest = "[]"]
      out res' names' pre' cn' valid' x
    by (simp add: val')
  show ?thesis
    using a b c by blast
qed

text \<open>
  The claim C5 as it is written fails: the rules of the child mention the parameter
  \<^verbatim>\<open>Order\<close> of the parent, which holds 50, and after \<^verbatim>\<open>getInput\<close> no cell of the child holds
  it, since the child has no property \<^verbatim>\<open>Rank\<close>. The cells of the child are \<^verbatim>\<open>Window\<close>,
  \<^verbatim>\<open>Order\<close>, \<^verbatim>\<open>Depth\<close> and \<^verbatim>\<open>X\<close>.
\<close>

theorem parameter_with_rule_not_transferred:
  "rules_contains (par_PropagationRules (heap param_example 1)) ''Order'' \<and>
   property (heap param_example 0) ''par_Order'' = QInt 50 \<and>
   child_cells 1 (getInput param_example 1 0) = Inr (True, [QInt 3, Invalid, Invalid, QInt 5])"
  by code_simp

text \<open>
  Claim C6, as the code has it. In the step of \<^verbatim>\<open>getInput\<close> for an offered parent property:
  when the child has no property for the resolved name, the step changes nothing (it logs
  nothing either) and the loop goes on with the parent's remaining properties; when the
  parent's value is invalid, or the first matching child property refuses the value, the
  step appends one warning to what is observed and \<^verbatim>\<open>getInput\<close> returns \<^verbatim>\<open>false\<close> at once:
  the remaining properties \<open>rest\<close> are not transferred. Nothing but the warning changes, so
  no node is touched and no \<^verbatim>\<open>raise\<close> is emitted.
\<close>

theorem skipped_and_failed_slots:
  "(offered (par_PropagationRules (heap st c)) pn s \<and>
    childPropBaseName (par_PropagationRules (heap st c)) (objectName (heap st p)) s = Inr t \<and>
    (\<forall>x\<in>set (propertyNames (heap st c)). \<not> matches t x)
      \<longrightarrow> getInput_loop st c p (pn # rest) = getInput_loop st c p rest) \<and>
   (offered (par_PropagationRules (heap st c)) pn s \<and>
    childPropBaseName (par_PropagationRules (heap st c)) (objectName (heap st p)) s = Inr t \<and>
    propertyNames (heap st c) = pre @ cn # post \<and> (\<forall>x\<in>set pre. \<not> matches t x) \<and> matches t cn \<and>
    \<not> isValid (property (heap st p) pn)
      \<longrightarrow> getInput_loop st c p (pn # rest) = Inr (False, emit (ReadFailed p pn) st)) \<and>
   (offered (par_PropagationRules (heap st c)) pn s \<and>
    childPropBaseName (par_PropagationRules (heap st c)) (objectName (heap st p)) s = Inr t \<and>
    propertyNames (heap st c) = pre @ cn # post \<and> (\<forall>x\<in>set pre. \<not> matches t x) \<and> matches t cn \<and>
    isValid (property (heap st p) pn) \<and>
    setProperty (heap st c) cn (property (heap st p) pn) = None
      \<longrightarrow> getInput_loop st c p (pn # rest) = Inr (False, emit (SetFailed c cn) st))"
proof (intro conjI impI)
  assume h: "offered (par_PropagationRules (heap st c)) pn s \<and>
    childPropBaseName (par_PropagationRules (heap st c)) (objectName (heap st p)) s = Inr t \<and>
    (\<forall>x\<in>set (propertyNames (heap st c)). \<not> matches t x)"
  then have "assignMatching st c p pn t (propertyNames (heap st c)) = (True, st)"
    by (simp add: assignMatching_none)
  then show "getInput_loop st c p (pn # rest) = getInput_loop st c p rest"
    using h getInput_loop_offered [of st c pn s p t rest] by simp
next
  assume h: "offered (par_PropagationRules (heap st c)) pn s \<and>
    childPropBaseName (par_PropagationRules (heap st c)) (objectName (heap st p)) s = Inr t \<and>
    propertyNames (heap st c) = pre @ cn # post \<and> (\<forall>x\<in>set pre. \<not> matches t x) \<and> matches t cn \<and>
    \<not> isValid (property (heap st p) pn)"
  then have "assignMatching st c p pn t (propertyNames (heap st c)) = (False, emit (ReadFailed p pn) st)"
    using assignMatching_first [of pre t cn st c p pn post] by simp
  then show "getInput_loop st c p (pn # rest) = Inr (False, emit (ReadFailed p pn) st)"
    using h getInput_loop_offered [of st c pn s p t rest] by simp
next
  assume h: "offered (par_PropagationRules (heap st c)) pn s \<and>
    childPropBaseName (par_PropagationRules (heap st c)) (objectName (heap st p)) s = Inr t \<and>
    propertyNames (heap st c) = pre @ cn # post \<and> (\<forall>x\<in>set pre. \<not> matches t x) \<and> matches t cn \<and>
    isValid (property (heap st p) pn) \<and>
    setProperty (heap st c) cn (property (heap st p) pn) = None"
  then have "assignMatching st c p pn t (propertyNames (heap st c)) = (False, emit (SetFailed c cn) st)"
    using assignMatching_first [of pre t cn st c p pn post] by simp
  then show "getInput_loop st c p (pn # rest) = Inr (False, emit (SetFailed c cn) st)"
    using h getInput_loop_offered [of st c pn s p t rest] by simp
qed

theorem skipped_and_failed_slots_witness:
  "getInput_loop mismatch_example 1 0 [''algout_W'', ''algout_Y'']
     = getInput_loop mismatch_example 1 0 [''algout_Y''] \<and>
   getInput_loop mismatch_example 1 0 [''algout_Z'', ''algout_Y'']
     = Inr (False, emit (ReadFailed 0 ''algout_Z'') mismatch_example) \<and>
   getInput_loop mismatch_example 1 0 [''algout_X'', ''algout_Y'']
     = Inr (False, emit (SetFailed 1 ''algin_X'') mismatch_example)"
proof -
  let ?builtin = "[''objectName'', ''par_KeepInput'', ''par_PropagationRules'',
                   ''par_ParallelExecution'', ''finished'', ''started'', ''ancestors'',
                   ''descendants'']"
  let ?rules = "par_PropagationRules (heap mismatch_example 1)"
  let ?P = "objectName (heap mismatch_example 0)"
  have w: "offered ?rules ''algout_W'' ''W''" "childPropBaseName ?rules ?P ''W'' = Inr ''W''"
      "\<forall>x\<in>set (propertyNames (heap mismatch_example 1)). \<not> matches ''W'' x"
    by code_simp+
  have z: "offered ?rules ''algout_Z'' ''Z''" "childPropBaseName ?rules ?P ''Z'' = Inr ''Z''"
      "propertyNames (heap mismatch_example 1)
         = (?builtin @ [''algin_X'', ''algin_Y'']) @ ''algin_Z'' # []"
      "\<forall>x\<in>set (?builtin @ [''algin_X'', ''algin_Y'']). \<not> matches ''Z'' x"
      "matches ''Z'' ''algin_Z''"
      "\<not> isValid (property (heap mismatch_example 0) ''algout_Z'')"
    by code_simp+
  have x: "offered ?rules ''algout_X'' ''X''" "childPropBaseName ?rules ?P ''X'' = Inr ''X''"
      "propertyNames (heap mismatch_example 1)
         = ?builtin @ ''algin_X'' # [''algin_Y'', ''algin_Z'']"
      "\<forall>x\<in>set ?builtin. \<not> matches ''X'' x"
      "matches ''X'' ''algin_X''"
      "isValid (property (heap mismatch_example 0) ''algout_X'')"
      "setProperty (heap mismatch_example 1) ''algin_X''
         (property (heap mismatch_example 0) ''algout_X'') = None"
    by code_simp+
  note inst = skipped_and_failed_slots [where st = mismatch_example and c = 1 and p = 0
      and rest = "[''algout_Y'']"]
  have a: "getInput_loop mismatch_example 1 0 [''algout_W'', ''algout_Y'']
             = getInput_loop mismatch_example 1 0 [''algout_Y'']"
    using inst [where pn = "''algout_W''" and s = "''W''" and t = "''W''"] w by blast
  have b: "getInput_loop mismatch_example 1 0 [''algout_Z'', ''algout_Y'']
             = Inr (False, emit (ReadFailed 0 ''algout_Z'') mismatch_example)"
    using inst [where pn = "''algout_Z''" and s = "''Z''" and t = "''Z''"
        and pre = "?builtin @ [''algin_X'', ''algin_Y'']" and cn = "''algin_Z''" and post = "[]"] z
    by blast
  have c: "getInput_loop mismatch_example 1 0 [''algout_X'', ''algout_Y'']
             = Inr (False, emit (SetFailed 1 ''algin_X'') mismatch_example)"
    using inst [where pn = "''algout_X''" and s = "''X''" and t = "''X''"
        and pre = ?builtin and cn = "''algin_X''" and post = "[''algin_Y'', ''algin_Z'']"] x
    by blast
  show ?thesis
    using a b c by blast
qed

text \<open>
  The claim C6 as it is written fails: the child refuses the vector of the parent's
  output \<^verbatim>\<open>X\<close>, \<^verbatim>\<open>getInput\<close> returns \<^verbatim>\<open>false\<close>, and the parent's next output \<^verbatim>\<open>Y\<close>, which holds 2
  and has a matching input on the child, is not transferred.
\<close>

theorem failed_slot_ends_transfer:
  "property (heap mismatch_example 0) ''algout_Y'' = QInt 2 \<and>
   transfer_outcome 1 ''algin_Y'' (getInput mismatch_example 1 0)
     = Inr (False, Invalid, [SetFailed 1 ''algin_X''])"
  by code_simp

section \<open>Properties of the schedulers\<close>

text \<open>
  Claim C1 fails on the code. In the chain \<open>0 \<rightarrow> 1\<close>, one call of \<^verbatim>\<open>serialExecution\<close> on node 1
  returns after \<^verbatim>\<open>run\<close> has been executed twice on node 1: once when node 0 propagates to
  it, and once more in the call that walked to node 0. In the chain \<open>0 \<rightarrow> 1 \<rightarrow> 2\<close>, a call on
  node 2 executes nodes 1 and 2 twice each.
\<close>

theorem serialExecution_runs_node_twice:
  "observe run_counts (serialExecution chain_procs 20 1 chain2) = Some [1, 2, 0] \<and>
   observe run_counts (serialExecution chain_procs 20 2 chain3) = Some [1, 2, 2]"
  by code_simp

text \<open>
  The work of the threads when a single task or a single event is pending: every list
  of choices that reaches a quiescent state passes through that task or event.
\<close>

lemma eventLoop_idle:
  assumes "pool st = []" and "posted st = []"
  shows "eventLoop procs fuel cs st = Inr st"
proof (induction cs)
  case Nil
  show ?case by simp
next
  case (Cons c cs)
  then show ?case
    using assms by (cases c) (simp_all add: processEvent_def)
qed

lemma eventLoop_one_task:
  assumes "pool st = [n]" and "posted st = []"
    and run: "eventLoop procs fuel cs st = Inr st'" and q: "quiescent st'"
  shows "\<exists>cs'. eventLoop procs fuel cs' (workerRuns procs 0 st) = Inr st'"
  using run
proof (induction cs)
  case Nil
  then have "st' = st" by simp
  then show ?case using q assms(1) by (simp add: quiescent_def)
next
  case (Cons c cs)
  show ?case
  proof (cases c)
    case (Work i)
    show ?thesis
    proof (cases "i = 0")
      case True
      then have "eventLoop procs fuel cs (workerRuns procs 0 st) = Inr st'"
        using Cons.prems Work assms(1) by simp
      then show ?thesis by blast
    next
      case False
      then have "eventLoop procs fuel cs st = Inr st'"
        using Cons.prems Work assms(1) by simp
      then show ?thesis by (rule Cons.IH)
    qed
  next
    case Event
    then have "eventLoop procs fuel cs st = Inr st'"
      using Cons.prems assms(2) by (simp add: processEvent_def)
    then show ?thesis by (rule Cons.IH)
  qed
qed

lemma eventLoop_one_event:
  assumes "pool st = []" and "posted st \<noteq> []" and ev: "processEvent procs fuel st = Inr st1"
    and run: "eventLoop procs fuel cs st = Inr st'" and q: "quiescent st'"
  shows "\<exists>cs'. eventLoop procs fuel cs' st1 = Inr st'"
  using run
proof (induction cs)
  case Nil
  then have "st' = st" by simp
  then show ?case using q assms(2) by (simp add: quiescent_def)
next
  case (Cons c cs)
  show ?case
  proof (cases c)
    case (Work i)
    then have "eventLoop procs fuel cs st = Inr st'"
      using Cons.prems assms(1) by simp
    then show ?thesis by (rule Cons.IH)
  next
    case Event
    then have "eventLoop procs fuel cs st1 = Inr st'"
      using Cons.prems ev by simp
    then show ?thesis by blast
  qed
qed

lemma chain3_stage_facts:
  "\<not> isl (parallelExecution chain_procs 20 2 chain3)"
  "pool chain3_s0 = [0]" "posted chain3_s0 = []"
  "pool chain3_s1 = []" "posted chain3_s1 = [WatcherFinished 0]"
  "\<not> isl (processEvent chain_procs 20 chain3_s1)"
  "pool chain3_s2 = [1]" "posted chain3_s2 = []"
  "pool chain3_s3 = []" "posted chain3_s3 = [WatcherFinished 1]"
  "\<not> isl (processEvent chain_procs 20 chain3_s3)"
  "pool chain3_s4 = [2]" "posted chain3_s4 = []"
  "pool chain3_s5 = []" "posted chain3_s5 = [WatcherFinished 2]"
  "\<not> isl (processEvent chain_procs 20 chain3_s5)"
  "pool chain3_s6 = []" "posted chain3_s6 = []"
  "outputs_X chain3_s6 = [QInt 5, QInt 5, QInt 5]"
  by code_simp+

lemma Inr_projr: "\<not> isl x \<Longrightarrow> x = Inr (projr x)"
  by (cases x) simp_all

lemma chain3_stage_steps:
  "parallelExecution chain_procs 20 2 chain3 = Inr chain3_s0"
  "workerRuns chain_procs 0 chain3_s0 = chain3_s1"
  "processEvent chain_procs 20 chain3_s1 = Inr chain3_s2"
  "workerRuns chain_procs 0 chain3_s2 = chain3_s3"
  "processEvent chain_procs 20 chain3_s3 = Inr chain3_s4"
  "workerRuns chain_procs 0 chain3_s4 = chain3_s5"
  "processEvent chain_procs 20 chain3_s5 = Inr chain3_s6"
proof -
  show "parallelExecution chain_procs 20 2 chain3 = Inr chain3_s0"
    unfolding chain3_s0_def by (rule Inr_projr [OF chain3_stage_facts(1)])
  show "processEvent chain_procs 20 chain3_s1 = Inr chain3_s2"
    unfolding chain3_s2_def by (rule Inr_projr [OF chain3_stage_facts(6)])
  show "processEvent chain_procs 20 chain3_s3 = Inr chain3_s4"
    unfolding chain3_s4_def by (rule Inr_projr [OF chain3_stage_facts(11)])
  show "processEvent chain_procs 20 chain3_s5 = Inr chain3_s6"
    unfolding chain3_s6_def by (rule Inr_projr [OF chain3_stage_facts(16)])
qed (simp_all only: chain3_s1_def chain3_s3_def chain3_s5_def)

lemma chain3_parallel_any_schedule:
  assumes run: "parallelRun chain_procs 20 2 cs chain3 = Inr st'" and q: "quiescent st'"
  shows "outputs_X st' = [QInt 5, QInt 5, QInt 5]"
proof -
  note f = chain3_stage_facts and s = chain3_stage_steps
  have "eventLoop chain_procs 20 cs chain3_s0 = Inr st'"
    using run by (simp add: parallelRun_def s(1))
  then obtain cs1 where "eventLoop chain_procs 20 cs1 chain3_s1 = Inr st'"
    using eventLoop_one_task [OF f(2,3) _ q] s(2) by metis
  then obtain cs2 where "eventLoop chain_procs 20 cs2 chain3_s2 = Inr st'"
    using eventLoop_one_event [OF f(4) _ s(3) _ q] f(5) by (metis list.distinct(1))
  then obtain cs3 where "eventLoop chain_procs 20 cs3 chain3_s3 = Inr st'"
    using eventLoop_one_task [OF f(7,8) _ q] s(4) by metis
  then obtain cs4 where "eventLoop chain_procs 20 cs4 chain3_s4 = Inr st'"
    using eventLoop_one_event [OF f(9) _ s(5) _ q] f(10) by (metis list.distinct(1))
  then obtain cs5 where "eventLoop chain_procs 20 cs5 chain3_s5 = Inr st'"
    using eventLoop_one_task [OF f(12,13) _ q] s(6) by metis
  then obtain cs6 where "eventLoop chain_procs 20 cs6 chain3_s6 = Inr st'"
    using eventLoop_one_event [OF f(14) _ s(7) _ q] f(15) by (metis list.distinct(1))
  then have "st' = chain3_s6"
    using eventLoop_idle [OF f(17,18), of chain_procs 20 cs6] by simp
  then show ?thesis
    by (simp add: f(19))
qed

text \<open>
  Claim C2 fails on the code. In the chain \<open>0 \<rightarrow> 1 \<rightarrow> 2\<close> of a source and two forwarders, whose
  \<^verbatim>\<open>run\<close> procedures are functions of their inputs, \<^verbatim>\<open>parallelExecution\<close> on node 2 followed by
  the work of the threads ends with the number 5 in every output (along every list of
  choices that reaches a quiescent state, by \<open>chain3_parallel_any_schedule\<close>);
  \<^verbatim>\<open>serialExecution\<close> on node 2 ends with an empty output on node 1, which has been
  executed a second time after its input was cleared. In the
  chain \<open>0 \<rightarrow> 1\<close> whose node 1 counts its executions, the parallel execution ends with the
  count 1 and the serial execution with the count 2.
\<close>

theorem serial_and_parallel_outputs_differ:
  "observe quiescent
     (parallelRun chain_procs 20 2 [Work 0, Event, Work 0, Event, Work 0, Event] chain3)
     = Some True \<and>
   observe outputs_X
     (parallelRun chain_procs 20 2 [Work 0, Event, Work 0, Event, Work 0, Event] chain3)
     = Some [QInt 5, QInt 5, QInt 5] \<and>
   observe quiescent (serialExecution chain_procs 20 2 chain3) = Some True \<and>
   observe outputs_X (serialExecution chain_procs 20 2 chain3) = Some [QInt 5, Invalid, QInt 5] \<and>
   observe outputs_X (parallelRun counting_procs 20 1 [Work 0, Event, Work 0, Event] chain2)
     = Some [QInt 5, QInt 1, Invalid] \<and>
   observe outputs_X (serialExecution counting_procs 20 1 chain2)
     = Some [QInt 5, QInt 2, Invalid]"
  by code_simp

text \<open>
  Claim C3 fails on the code. Node 0 has finished and its output has reached node 1. With
  \<^verbatim>\<open>KeepInput\<close> false on node 0 and true on node 1, the input of node 0 still holds 7 and the
  two nodes are still connected; with \<^verbatim>\<open>KeepInput\<close> true on node 0 and false on node 1, the
  input of node 0 is empty and the connection is closed. It is the flag of the descendant
  that decides.
\<close>

theorem descendant_KeepInput_decides:
  "observe release_state (serialExecution (\<lambda>_. forward_run) 20 0 (keep_example False True))
     = Some (False, True, True, QInt 7, QInt 7, True) \<and>
   observe release_state (serialExecution (\<lambda>_. forward_run) 20 0 (keep_example True False))
     = Some (True, False, True, QInt 7, Invalid, False)"
  by code_simp

text \<open>
  Claim C7, as the code has it. \<^verbatim>\<open>abort\<close> records nothing on the node, and the schedulers
  read the completion bits and the \<open>started\<close> flags only. So a node that has emitted
  \<^verbatim>\<open>raise\<close> is dispatched like any other: when all its ancestors are complete,
  \<^verbatim>\<open>parallelExecution\<close> starts it and hands its \<^verbatim>\<open>run\<close> to the thread pool.
\<close>

theorem raised_node_is_dispatched:
  assumes "allInputsReady (heap st n)"
  shows "\<exists>st'. parallelExecution procs (Suc fuel) n (abort n message st) = Inr st' \<and>
               started (heap st' n) \<and> pool st' = pool st @ [n] \<and>
               trace st' = trace st @ [Raise n message, JustStarted n]"
  using assms
  by (simp add: abort_def emit_raise_def emit_def setStarted_def update_node_def Let_def)

theorem raised_node_is_dispatched_witness:
  "allInputsReady (heap chain2 0) \<and>
   (\<exists>st'. parallelExecution chain_procs (Suc 0) 0 (abort 0 ''stop'' chain2) = Inr st' \<and>
           started (heap st' 0) \<and> pool st' = pool chain2 @ [0] \<and>
           trace st' = trace chain2 @ [Raise 0 ''stop'', JustStarted 0])"
proof -
  have h: "allInputsReady (heap chain2 0)"
    by code_simp
  show ?thesis
    using h raised_node_is_dispatched [OF h, of chain_procs 0 "''stop''"] by simp
qed

text \<open>
  The claim C7 as it is written fails. In the chain \<open>0 \<rightarrow> 1\<close>, the \<^verbatim>\<open>run\<close> of node 0 calls
  \<^verbatim>\<open>abort\<close>; the queued connection delivers the call to node 1, which emits \<^verbatim>\<open>raise\<close> in turn;
  then the watcher reports the end of node 0, node 1 is started, and a worker executes
  its \<^verbatim>\<open>run\<close>.
\<close>

theorem node_runs_after_raise:
  "observe trace (parallelRun abort_procs 20 1 [Work 0, Event, Event, Work 0] chain2)
     = Some [JustStarted 0, Run 0, Raise 0 ''amount must be positive'',
             Raise 1 ''amount must be positive'', JustFinished 0, ReadFailed 0 ''algout_X'',
             JustStarted 1, Run 1] \<and>
   map_option (run_after_raise 1)
     (observe trace (parallelRun abort_procs 20 1 [Work 0, Event, Event, Work 0] chain2))
     = Some True"
  by code_simp

section \<open>Properties of the optimiser\<close>

text \<open>
  Claim C9 fails on the code. The connection of the chain \<open>0 \<rightarrow> 1\<close> is removable, and
  \<^verbatim>\<open>improveTree\<close> leaves the \<^verbatim>\<open>ParallelExecution\<close> flag of node 0 set: no node is made serial.
  In the chain \<open>0 \<rightarrow> 1 \<rightarrow> 2\<close> both connections are removable and are linked into one chain;
  node 1 is made serial, node 0, the head of the chain, is not.
\<close>

theorem improveTree_leaves_head_parallel:
  "isRemovableConnection 0 1 chain2 \<and>
   observe serial_flags (improveTree 20 1 chain2) = Some [False, False, False] \<and>
   isRemovableConnection 0 1 chain3 \<and> isRemovableConnection 1 2 chain3 \<and>
   observe serial_flags (improveTree 20 2 chain3) = Some [False, True, False]"
  by code_simp

end
